theory Spec2Isabelle
  imports Main "HOL-Library.Word"
begin

unbundle bit_operations_syntax

section \<open>Data model of the PBPU emulator\<close>

text \<open>
  The emulator keeps its whole machine in C globals of type \<open>uint8_t\<close> and \<open>bool\<close>.
  Bytes are 8-bit words, the two arrays \<open>rom[256]\<close> and \<open>ram[128]\<close> are lists of
  bytes, and the globals are the fields of one record that every function takes and
  returns.
\<close>

type_synonym uint8_t = "8 word"

record machine =
  rom :: "uint8_t list"
  ram :: "uint8_t list"
  pcPtr :: uint8_t
  tmpPcPtr :: uint8_t
  locPtr :: uint8_t
  regX :: uint8_t
  regY :: uint8_t
  regZ :: uint8_t
  useCarry :: bool
  carry :: bool
  ramDirty :: bool
  regsDirty :: bool
  screenDirty :: bool

subsection \<open>The opcode enumeration\<close>

text \<open>\<open>enum Opcodes\<close> numbers its sixteen members from 0 in declaration order.\<close>

definition OP_NOP :: uint8_t where "OP_NOP = 0"
definition OP_ADD :: uint8_t where "OP_ADD = 1"
definition OP_SUB :: uint8_t where "OP_SUB = 2"
definition OP_WT1 :: uint8_t where "OP_WT1 = 3"
definition OP_WT2 :: uint8_t where "OP_WT2 = 4"
definition OP_WTX :: uint8_t where "OP_WTX = 5"
definition OP_WTY :: uint8_t where "OP_WTY = 6"
definition OP_WTZ :: uint8_t where "OP_WTZ = 7"
definition OP_ZTR :: uint8_t where "OP_ZTR = 8"
definition OP_RTZ :: uint8_t where "OP_RTZ = 9"
definition OP_PC1 :: uint8_t where "OP_PC1 = 10"
definition OP_PC2 :: uint8_t where "OP_PC2 = 11"
definition OP_JMP :: uint8_t where "OP_JMP = 12"
definition OP_RTX :: uint8_t where "OP_RTX = 13"
definition OP_RTY :: uint8_t where "OP_RTY = 14"
definition OP_USC :: uint8_t where "OP_USC = 15"

section \<open>Memory subsystem\<close>

text \<open>
  \<open>WriteNibble\<close> and \<open>ReadNibble\<close> address a byte buffer by nibble: byte \<open>addr/2\<close>,
  low half for an even address and high half for an odd one. The buffer is passed by
  pointer in C; the model returns the updated buffer.
\<close>

definition WriteNibble :: "uint8_t list \<Rightarrow> uint8_t \<Rightarrow> uint8_t \<Rightarrow> uint8_t list" where
  "WriteNibble buff addr val =
     (if addr mod 2 = 0
      then buff[unat (addr div 2) := (buff ! unat (addr div 2) AND 0xF0) OR (val AND 0x0F)]
      else buff[unat (addr div 2) :=
             (buff ! unat (addr div 2) AND 0x0F) OR push_bit 4 (val AND 0x0F)])"

definition ReadNibble :: "uint8_t list \<Rightarrow> uint8_t \<Rightarrow> uint8_t" where
  "ReadNibble buff addr =
     (if addr mod 2 = 0
      then buff ! unat (addr div 2) AND 0x0F
      else drop_bit 4 (buff ! unat (addr div 2)) AND 0x0F)"

section \<open>Execution engine\<close>

definition LimitRegs :: "machine \<Rightarrow> machine" where
  "LimitRegs m =
     m\<lparr>regX := regX m AND 0xF, regY := regY m AND 0xF, regZ := regZ m AND 0xF\<rparr>"

text \<open>The carry-in of ADD and SUB: \<open>useCarry ? (uint8_t)carry : 0\<close>.\<close>

definition carry_in :: "machine \<Rightarrow> uint8_t" where
  "carry_in m = (if useCarry m then of_bool (carry m) else 0)"

text \<open>
  The \<open>switch\<close> of \<open>SimStep\<close>, one branch per \<open>case\<close> in source order. The switch has
  no \<open>default\<close>: a value matching no case leaves the machine as it is.
\<close>

definition exec_op :: "uint8_t \<Rightarrow> uint8_t \<Rightarrow> machine \<Rightarrow> machine" where
  "exec_op op imm m =
     (if op = OP_NOP then m
      else if op = OP_ADD then
        (let z = regX m + regY m + carry_in m
         in m\<lparr>regZ := z, carry := (drop_bit 4 z AND 0x1 \<noteq> 0), regsDirty := True\<rparr>)
      else if op = OP_SUB then
        (let subTmp = regY m + carry_in m
         in m\<lparr>regZ := regX m - subTmp, carry := (regX m \<ge> subTmp), regsDirty := True\<rparr>)
      else if op = OP_WT1 then
        m\<lparr>locPtr := (locPtr m AND 0x0F) OR push_bit 4 imm, regsDirty := True\<rparr>
      else if op = OP_WT2 then
        m\<lparr>locPtr := (locPtr m AND 0xF0) OR imm, regsDirty := True\<rparr>
      else if op = OP_WTX then m\<lparr>regX := imm, regsDirty := True\<rparr>
      else if op = OP_WTY then m\<lparr>regY := imm, regsDirty := True\<rparr>
      else if op = OP_WTZ then m\<lparr>regZ := imm, regsDirty := True\<rparr>
      else if op = OP_ZTR then
        m\<lparr>ram := WriteNibble (ram m) (locPtr m) (regZ m),
          screenDirty := (locPtr m < 4), ramDirty := True\<rparr>
      else if op = OP_RTZ then
        m\<lparr>regZ := ReadNibble (ram m) (locPtr m), regsDirty := True\<rparr>
      else if op = OP_PC1 then
        m\<lparr>tmpPcPtr := (tmpPcPtr m AND 0xF0) OR imm, regsDirty := True\<rparr>
      else if op = OP_PC2 then
        m\<lparr>tmpPcPtr := (tmpPcPtr m AND 0x0F) OR push_bit 4 imm, regsDirty := True\<rparr>
      else if op = OP_JMP then
        m\<lparr>tmpPcPtr := tmpPcPtr m - 1, pcPtr := tmpPcPtr m - 1\<rparr>
      else if op = OP_RTX then
        m\<lparr>regX := ReadNibble (ram m) (locPtr m), regsDirty := True\<rparr>
      else if op = OP_RTY then
        m\<lparr>regY := ReadNibble (ram m) (locPtr m), regsDirty := True\<rparr>
      else if op = OP_USC then m\<lparr>useCarry := \<not> useCarry m\<rparr>
      else m)"

text \<open>The fetch: \<open>op = rom[pcPtr] >> 4\<close> and \<open>imm = rom[pcPtr] & 0xF\<close>.\<close>

definition fetch_op :: "machine \<Rightarrow> uint8_t" where
  "fetch_op m = drop_bit 4 (rom m ! unat (pcPtr m))"

definition fetch_imm :: "machine \<Rightarrow> uint8_t" where
  "fetch_imm m = rom m ! unat (pcPtr m) AND 0xF"

definition SimStep :: "machine \<Rightarrow> machine" where
  "SimStep m =
     (let m1 = exec_op (fetch_op m) (fetch_imm m) m;
          m2 = LimitRegs m1
      in m2\<lparr>pcPtr := pcPtr m2 + 1\<rparr>)"

section \<open>Screen and driver loop\<close>

text \<open>
  \<open>UpdateScreen\<close> draws eight terminal lines of four cells. Line \<open>row\<close> shows the
  nibble \<open>ReadNibble(ram, row/2)\<close>, most significant bit first, so the nibbles it
  reads are those at the addresses \<open>row/2\<close> for \<open>row = 0..7\<close>. It returns without
  drawing when \<open>ramDirty\<close> is clear. The model returns the grid of lit cells.
\<close>

definition screen_rows :: "uint8_t list" where
  "screen_rows = [0, 1, 2, 3, 4, 5, 6, 7]"

definition screen_cols :: "uint8_t list" where
  "screen_cols = [0, 1, 2, 3]"

definition screen_addrs :: "uint8_t list" where
  "screen_addrs = map (\<lambda>row. row div 2) screen_rows"

definition UpdateScreen :: "machine \<Rightarrow> bool list list option" where
  "UpdateScreen m =
     (if \<not> ramDirty m then None
      else Some (map (\<lambda>row.
             let rowVal = ReadNibble (ram m) (row div 2)
             in map (\<lambda>col. drop_bit (unat (3 - col)) rowVal AND 0x1 \<noteq> 0) screen_cols)
           screen_rows))"

text \<open>
  The start-up values of the globals: the arrays and registers are zero, the three dirty
  flags are initialised to \<open>true\<close>, \<open>useCarry\<close> to \<open>false\<close>.
\<close>

definition rom_init :: "uint8_t list" where
  "rom_init = replicate 256 0"

definition machine_init :: "uint8_t list \<Rightarrow> machine" where
  "machine_init r =
     \<lparr>rom = r, ram = replicate 128 0, pcPtr = 0, tmpPcPtr = 0, locPtr = 0,
      regX = 0, regY = 0, regZ = 0, useCarry = False, carry = False,
      ramDirty = True, regsDirty = True, screenDirty = True\<rparr>"

text \<open>
  One pass of the \<open>while(true)\<close> loop of \<open>main\<close>, as far as the machine is concerned:
  a step, then each dirty flag that is set is consumed by its window update and cleared.
\<close>

definition main_loop_pass :: "machine \<Rightarrow> machine" where
  "main_loop_pass m =
     (let m1 = SimStep m;
          m2 = (if regsDirty m1 then m1\<lparr>regsDirty := False\<rparr> else m1);
          m3 = (if screenDirty m2 then m2\<lparr>screenDirty := False\<rparr> else m2)
      in (if ramDirty m3 then m3\<lparr>ramDirty := False\<rparr> else m3))"

section \<open>Program load\<close>

text \<open>
  The load block of \<open>main\<close> opens the program file, reads up to \<open>sizeof(rom) - 1\<close>
  bytes into \<open>rom\<close> with one \<open>fread\<close>, and on each of its three paths calls
  \<open>fclose(prgFile)\<close> before it goes on: before the \<open>return 1\<close> that follows
  \<open>Program not found!\<close>, before the \<open>return 1\<close> that follows \<open>Program is empty!\<close>, and
  before leaving the block with the ROM loaded. The file is the byte stream it delivers,
  \<open>None\<close> when \<open>fopen\<close> returns \<open>NULL\<close>. \<open>fread\<close> stores the first \<open>count\<close> bytes of
  the stream (all of it when it is shorter) at the start of the buffer and returns how
  many it stored.

  \<open>fclose\<close> is defined on an open stream only. Called on \<open>NULL\<close> its behaviour is
  undefined in C, and the process does not reach the statement after it: that outcome
  is \<open>ClosedNullStream\<close>. A \<open>return 1\<close> that is reached is \<open>Exited\<close> with the error of
  the message printed and the status returned.
\<close>

datatype load_error = ProgramNotFound | ProgramEmpty

datatype load_fault = Exited load_error int | ClosedNullStream

definition fread :: "uint8_t list \<Rightarrow> nat \<Rightarrow> uint8_t list \<Rightarrow> uint8_t list \<times> nat" where
  "fread buf count stream =
     (let n = min count (length stream)
      in (take n stream @ drop n buf, n))"

definition fclose :: "uint8_t list option \<Rightarrow> unit option" where
  "fclose file = (case file of None \<Rightarrow> None | Some stream \<Rightarrow> Some ())"

definition load_program ::
  "uint8_t list option \<Rightarrow> uint8_t list \<Rightarrow> load_fault + uint8_t list" where
  "load_program prgFile rom0 =
     (case prgFile of
        None \<Rightarrow>
          (case fclose prgFile of
             None \<Rightarrow> Inl ClosedNullStream
           | Some u \<Rightarrow> Inl (Exited ProgramNotFound 1))
      | Some stream \<Rightarrow>
          (let (rom1, readBytes) = fread rom0 (length rom0 - 1) stream
           in if readBytes \<le> 0
              then (case fclose prgFile of
                      None \<Rightarrow> Inl ClosedNullStream
                    | Some u \<Rightarrow> Inl (Exited ProgramEmpty 1))
              else (case fclose prgFile of
                      None \<Rightarrow> Inl ClosedNullStream
                    | Some u \<Rightarrow> Inr rom1)))"

section \<open>Concrete programs\<close>

text \<open>
  The ROM after loading a short program: the program bytes followed by zeros up to the
  256 bytes of the array.
\<close>

definition rom_image :: "uint8_t list \<Rightarrow> uint8_t list" where
  "rom_image prog = prog @ replicate (256 - length prog) 0"

section \<open>Auxiliary facts\<close>

lemmas Opcodes_defs =
  OP_NOP_def OP_ADD_def OP_SUB_def OP_WT1_def OP_WT2_def OP_WTX_def OP_WTY_def
  OP_WTZ_def OP_ZTR_def OP_RTZ_def OP_PC1_def OP_PC2_def OP_JMP_def OP_RTX_def
  OP_RTY_def OP_USC_def

lemma nib_lo: "(0x0F :: 8 word) = mask 4" by (simp add: mask_eq_exp_minus_1)
lemma nib_hi: "(0xF0 :: 8 word) = NOT (mask 4)" by (simp add: mask_eq_exp_minus_1)

lemma unat_low_nibble: "unat (x AND 0x0F :: 8 word) = unat x mod 16"
  unfolding nib_lo
  by (simp flip: take_bit_eq_mask add: unsigned_take_bit_eq take_bit_eq_mod unat_mod)

lemma unat_high_nibble: "unat (drop_bit 4 x :: 8 word) = unat x div 16"
  by (simp add: unat_drop_bit_eq drop_bit_eq_div unat_div)

lemma unat_u8_bound: "unat (a :: 8 word) < 256"
  using unsigned_less [of a, where 'a = nat] by simp

lemma low_nibble_id: "v < 16 \<Longrightarrow> v AND 0x0F = (v :: 8 word)"
  by (rule word_unat_eq_iff [THEN iffD2]) (simp add: unat_low_nibble word_less_nat_alt)

lemma high_nibble_masked: "drop_bit 4 x AND 0x0F = drop_bit 4 (x :: 8 word)"
proof (rule low_nibble_id)
  show "drop_bit 4 x < 16"
    using unat_u8_bound [of x] by (simp add: word_less_nat_alt unat_high_nibble)
qed

lemma set_low_keeps_low: "((x AND 0xF0) OR (v AND 0x0F)) AND 0x0F = v AND (0x0F :: 8 word)"
  unfolding nib_lo nib_hi by (rule bit_eqI) (auto simp add: bit_simps)

lemma set_low_keeps_high: "drop_bit 4 ((x AND 0xF0) OR (v AND 0x0F)) = drop_bit 4 (x :: 8 word)"
  unfolding nib_lo nib_hi by (rule bit_eqI) (auto simp add: bit_simps dest: bit_imp_le_length)

lemma set_high_keeps_high:
  "drop_bit 4 ((x AND 0x0F) OR push_bit 4 (v AND 0x0F)) = v AND (0x0F :: 8 word)"
  unfolding nib_lo nib_hi by (rule bit_eqI) (auto simp add: bit_simps)

lemma set_high_keeps_low:
  "((x AND 0x0F) OR push_bit 4 (v AND 0x0F)) AND 0x0F = x AND (0x0F :: 8 word)"
  unfolding nib_lo nib_hi by (rule bit_eqI) (auto simp add: bit_simps)

lemma half_index_bound: "unat (a div 2 :: 8 word) < 128"
  using unat_u8_bound [of a] by (simp add: unat_div)

lemma u8_even_iff: "(a mod 2 = 0) = even (unat (a :: 8 word))"
proof -
  have "(a mod 2 = 0) = (unat (a mod 2) = 0)" by (simp add: unat_eq_0)
  also have "\<dots> = even (unat a)" by (simp add: unat_mod even_iff_mod_2_eq_zero)
  finally show ?thesis .
qed

lemma ReadNibble_WriteNibble:
  assumes "length buf = 128"
  shows "ReadNibble (WriteNibble buf a v) a = v AND 0x0F"
proof -
  define i where "i = unat (a div 2)"
  have b: "i < length buf" using half_index_bound [of a] assms by (simp add: i_def)
  show ?thesis
  proof (cases "a mod 2 = 0")
    case True
    then have "ReadNibble (WriteNibble buf a v) a
        = (buf[i := (buf ! i AND 0xF0) OR (v AND 0x0F)]) ! i AND 0x0F"
      by (simp only: ReadNibble_def WriteNibble_def i_def if_True simp_thms)
    also have "\<dots> = ((buf ! i AND 0xF0) OR (v AND 0x0F)) AND 0x0F"
      using b by (simp only: nth_list_update_eq)
    finally show ?thesis by (simp only: set_low_keeps_low)
  next
    case False
    then have "ReadNibble (WriteNibble buf a v) a
        = drop_bit 4 ((buf[i := (buf ! i AND 0x0F) OR push_bit 4 (v AND 0x0F)]) ! i) AND 0x0F"
      by (simp only: ReadNibble_def WriteNibble_def i_def if_False simp_thms)
    also have "\<dots> = drop_bit 4 ((buf ! i AND 0x0F) OR push_bit 4 (v AND 0x0F)) AND 0x0F"
      using b by (simp only: nth_list_update_eq)
    finally show ?thesis by (simp only: set_high_keeps_high and.right_idem)
  qed
qed

lemma WriteNibble_other_half:
  assumes "length buf = 128"
  shows "if a mod 2 = 0
         then drop_bit 4 (WriteNibble buf a v ! unat (a div 2)) = drop_bit 4 (buf ! unat (a div 2))
         else WriteNibble buf a v ! unat (a div 2) AND 0x0F = buf ! unat (a div 2) AND 0x0F"
proof -
  define i where "i = unat (a div 2)"
  have b: "i < length buf" using half_index_bound [of a] assms by (simp add: i_def)
  show ?thesis
  proof (cases "a mod 2 = 0")
    case True
    then have "WriteNibble buf a v ! i = (buf[i := (buf ! i AND 0xF0) OR (v AND 0x0F)]) ! i"
      by (simp only: WriteNibble_def i_def if_True simp_thms)
    also have "\<dots> = (buf ! i AND 0xF0) OR (v AND 0x0F)"
      using b by (simp only: nth_list_update_eq)
    finally have "drop_bit 4 (WriteNibble buf a v ! i) = drop_bit 4 (buf ! i)"
      by (simp only: set_low_keeps_high)
    with True show ?thesis by (simp only: i_def if_True simp_thms)
  next
    case False
    then have "WriteNibble buf a v ! i
        = (buf[i := (buf ! i AND 0x0F) OR push_bit 4 (v AND 0x0F)]) ! i"
      by (simp only: WriteNibble_def i_def if_False simp_thms)
    also have "\<dots> = (buf ! i AND 0x0F) OR push_bit 4 (v AND 0x0F)"
      using b by (simp only: nth_list_update_eq)
    finally have "WriteNibble buf a v ! i AND 0x0F = buf ! i AND 0x0F"
      by (simp only: set_high_keeps_low)
    with False show ?thesis by (simp only: i_def if_False simp_thms)
  qed
qed

lemma unat_ReadNibble:
  "unat (ReadNibble buf a) =
     (if a mod 2 = 0 then unat (buf ! unat (a div 2)) mod 16
      else unat (buf ! unat (a div 2)) div 16)"
proof (cases "a mod 2 = 0")
  case True
  then show ?thesis by (simp only: ReadNibble_def if_True simp_thms unat_low_nibble)
next
  case False
  then show ?thesis
    by (simp only: ReadNibble_def if_False simp_thms high_nibble_masked unat_high_nibble)
qed

lemma unat_dec: "unat (w - 1 :: 8 word) = (unat w + 255) mod 256"
  using unat_u8_bound [of w] by (simp add: unat_sub_if' mod_if)

lemma set_screen_addrs: "set screen_addrs = {0, 1, 2, 3}"
  by (simp add: screen_addrs_def screen_rows_def)

lemma u8_lt4: "(a < 4) = (unat (a :: 8 word) \<le> 3)"
  by (simp add: word_less_nat_alt) arith

lemma screen_addrs_iff: "(a \<in> set screen_addrs) = (unat a \<le> 3)"
proof -
  have "(unat a \<le> 3) = (unat a = 0 \<or> unat a = 1 \<or> unat a = 2 \<or> unat a = 3)" by arith
  also have "\<dots> = (a = 0 \<or> a = 1 \<or> a = 2 \<or> a = 3)"
    by (simp add: word_unat_eq_iff [of a])
  finally show ?thesis by (auto simp add: set_screen_addrs)
qed

lemma unat_sum3: "unat (x + y + c :: 8 word) = (unat x + unat y + unat c) mod 256"
  by (simp add: unat_word_ariths mod_simps)

lemma sum3_low: "unat ((x + y + c) AND 0xF :: 8 word) = (unat x + unat y + unat c) mod 16"
proof -
  have "unat ((x + y + c) AND 0xF) = (unat x + unat y + unat c) mod 256 mod 16"
    by (simp only: unat_low_nibble unat_sum3)
  also have "\<dots> = (unat x + unat y + unat c) mod 16"
    by (rule mod_mod_cancel) simp
  finally show ?thesis .
qed

lemma sum3_bit4: "(drop_bit 4 (x + y + c :: 8 word) AND 0x1 \<noteq> 0) = bit (unat x + unat y + unat c) 4"
proof -
  have "(drop_bit 4 (x + y + c) AND 0x1 \<noteq> 0) = bit (x + y + c) 4"
    by (simp add: bit_iff_odd_drop_bit and_one_eq mod_2_eq_odd)
  also have "\<dots> = bit (unat (x + y + c)) 4"
    by (simp add: bit_unsigned_iff)
  also have "\<dots> = bit (take_bit 8 (unat x + unat y + unat c)) 4"
    by (simp only: unat_sum3 take_bit_eq_mod) simp
  also have "\<dots> = bit (unat x + unat y + unat c) 4"
    by (simp add: bit_take_bit_iff)
  finally show ?thesis .
qed

lemma diff_low: "int (unat ((x - s) AND 0xF :: 8 word)) = (int (unat x) - int (unat s)) mod 16"
proof -
  have "int (unat ((x - s) AND 0xF)) = uint (x - s) mod 16"
    by (simp only: unat_low_nibble) (simp add: zmod_int)
  also have "\<dots> = (uint x - uint s) mod 256 mod 16"
    by (simp add: uint_word_ariths)
  also have "\<dots> = (uint x - uint s) mod 16"
    by (rule mod_mod_cancel) simp
  finally show ?thesis by simp
qed

lemma unat_carry_in: "unat (carry_in m) = (if useCarry m \<and> carry m then 1 else 0)"
  by (simp add: carry_in_def)

lemma unat_subTmp:
  assumes "y < 16"
  shows "unat (y + carry_in m :: 8 word) = unat y + (if useCarry m \<and> carry m then 1 else 0)"
  using assms by (simp add: carry_in_def unat_word_ariths word_less_nat_alt)

lemma UpdateScreen_reads:
  assumes "ramDirty m"
  shows "UpdateScreen m =
    Some (map (\<lambda>a. map (\<lambda>col. drop_bit (unat (3 - col)) (ReadNibble (ram m) a) AND 0x1 \<noteq> 0)
                 screen_cols) screen_addrs)"
  using assms by (simp add: UpdateScreen_def screen_addrs_def Let_def comp_def)

lemmas step_defs = SimStep_def exec_op_def LimitRegs_def Let_def Opcodes_defs

lemmas run_defs = step_defs main_loop_pass_def machine_init_def rom_image_def
  fetch_op_def fetch_imm_def carry_in_def nth_append

lemma low_write:
  "unat ((t AND 0xF0) OR (r AND 0x0F) :: 8 word) mod 16 = unat (r AND 0x0F)
   \<and> unat ((t AND 0xF0) OR (r AND 0x0F) :: 8 word) div 16 = unat t div 16"
proof -
  have "unat ((t AND 0xF0) OR (r AND 0x0F)) mod 16 = unat (((t AND 0xF0) OR (r AND 0x0F)) AND 0x0F)"
    by (simp only: unat_low_nibble)
  also have "\<dots> = unat (r AND 0x0F)" by (simp only: set_low_keeps_low)
  finally have 1: "unat ((t AND 0xF0) OR (r AND 0x0F)) mod 16 = unat (r AND 0x0F)" .
  have "unat ((t AND 0xF0) OR (r AND 0x0F)) div 16 = unat (drop_bit 4 ((t AND 0xF0) OR (r AND 0x0F)))"
    by (simp only: unat_high_nibble)
  also have "\<dots> = unat t div 16" by (simp only: set_low_keeps_high unat_high_nibble)
  finally show ?thesis using 1 by blast
qed

lemma high_write:
  "unat ((t AND 0x0F) OR push_bit 4 (r AND 0x0F) :: 8 word) div 16 = unat (r AND 0x0F)
   \<and> unat ((t AND 0x0F) OR push_bit 4 (r AND 0x0F) :: 8 word) mod 16 = unat t mod 16"
proof -
  have "unat ((t AND 0x0F) OR push_bit 4 (r AND 0x0F)) div 16
      = unat (drop_bit 4 ((t AND 0x0F) OR push_bit 4 (r AND 0x0F)))"
    by (simp only: unat_high_nibble)
  also have "\<dots> = unat (r AND 0x0F)" by (simp only: set_high_keeps_high)
  finally have 1: "unat ((t AND 0x0F) OR push_bit 4 (r AND 0x0F)) div 16 = unat (r AND 0x0F)" .
  have "unat ((t AND 0x0F) OR push_bit 4 (r AND 0x0F)) mod 16
      = unat (((t AND 0x0F) OR push_bit 4 (r AND 0x0F)) AND 0x0F)"
    by (simp only: unat_low_nibble)
  also have "\<dots> = unat t mod 16" by (simp only: set_high_keeps_low unat_low_nibble)
  finally show ?thesis using 1 by blast
qed

lemma PC1_step: "fetch_op m = OP_PC1 \<Longrightarrow> tmpPcPtr (SimStep m) = (tmpPcPtr m AND 0xF0) OR fetch_imm m"
  by (simp add: step_defs)

lemma PC2_step: "fetch_op m = OP_PC2 \<Longrightarrow> tmpPcPtr (SimStep m) = (tmpPcPtr m AND 0x0F) OR push_bit 4 (fetch_imm m)"
  by (simp add: step_defs)

lemma WT1_step: "fetch_op m = OP_WT1 \<Longrightarrow> locPtr (SimStep m) = (locPtr m AND 0x0F) OR push_bit 4 (fetch_imm m)"
  by (simp add: step_defs)

lemma WT2_step: "fetch_op m = OP_WT2 \<Longrightarrow> locPtr (SimStep m) = (locPtr m AND 0xF0) OR fetch_imm m"
  by (simp add: step_defs)

lemma ADD_step:
  "fetch_op m = OP_ADD \<Longrightarrow>
     regZ (SimStep m) = (regX m + regY m + carry_in m) AND 0xF
     \<and> carry (SimStep m) = (drop_bit 4 (regX m + regY m + carry_in m) AND 0x1 \<noteq> 0)"
  by (simp add: step_defs)

lemma SUB_step:
  "fetch_op m = OP_SUB \<Longrightarrow>
     regZ (SimStep m) = (regX m - (regY m + carry_in m)) AND 0xF
     \<and> carry (SimStep m) = (regY m + carry_in m \<le> regX m)"
  by (simp add: step_defs)

lemma fread_rom_init:
  "fread rom_init (length rom_init - 1) bs
     = (take 255 bs @ replicate (256 - min 255 (length bs)) 0, min 255 (length bs))"
  by (simp add: fread_def rom_init_def Let_def min_def)

lemma load_program_Some:
  "load_program (Some bs) rom_init =
     (if min 255 (length bs) = 0 then Inl (Exited ProgramEmpty 1)
      else Inr (take 255 bs @ replicate (256 - min 255 (length bs)) 0))"
  by (simp only: load_program_def option.case fread_rom_init Let_def prod.case fclose_def) simp

lemma loaded_rom:
  assumes "r = take 255 bs @ replicate (256 - min 255 (length bs)) (0 :: 8 word)"
  shows "length r = 256 \<and> take (min 255 (length bs)) r = take (min 255 (length bs)) bs
       \<and> (\<forall>i. min 255 (length bs) \<le> i \<and> i < 256 \<longrightarrow> r ! i = 0)"
  unfolding assms by (auto simp add: nth_append min_def)

section \<open>Claims\<close>

text \<open>
  C1. A step whose fetched opcode is JMP leaves \<open>pcPtr\<close> at the value \<open>tmpPcPtr\<close> had
  before the step: the decrement of \<open>tmpPcPtr\<close> in the JMP case cancels the increment of
  \<open>pcPtr\<close> that ends every step. \<open>tmpPcPtr\<close> itself ends one lower, modulo 256.
\<close>

theorem jmp_target:
  assumes "fetch_op m = OP_JMP"
  shows "pcPtr (SimStep m) = tmpPcPtr m
       \<and> tmpPcPtr (SimStep m) = tmpPcPtr m - 1
       \<and> unat (tmpPcPtr (SimStep m)) = (unat (tmpPcPtr m) + 255) mod 256"
proof -
  have 1: "pcPtr (SimStep m) = tmpPcPtr m" and 2: "tmpPcPtr (SimStep m) = tmpPcPtr m - 1"
    using assms by (simp_all add: step_defs)
  from 1 2 show ?thesis by (simp only: unat_dec simp_thms)
qed

text \<open>
  C1, witness: the program PC1 0, PC2 1, JMP. After two loop passes \<open>tmpPcPtr\<close> is
  \<open>0x10\<close>; the JMP step ends with \<open>pcPtr = 0x10\<close>.
\<close>

theorem jmp_target_witness:
  "fetch_op (main_loop_pass (main_loop_pass (machine_init (rom_image [0xA0, 0xB1, 0xC0])))) = OP_JMP
   \<and> tmpPcPtr (main_loop_pass (main_loop_pass (machine_init (rom_image [0xA0, 0xB1, 0xC0])))) = 0x10
   \<and> pcPtr (SimStep (main_loop_pass (main_loop_pass (machine_init (rom_image [0xA0, 0xB1, 0xC0]))))) = 0x10
   \<and> tmpPcPtr (SimStep (main_loop_pass (main_loop_pass (machine_init (rom_image [0xA0, 0xB1, 0xC0]))))) = 0x0F"
  using jmp_target [of "main_loop_pass (main_loop_pass (machine_init (rom_image [0xA0, 0xB1, 0xC0])))"]
  by (simp add: run_defs)

text \<open>
  C2. A step whose fetched opcode is SUB, on a machine whose \<open>regY\<close> is a 4-bit value:
  with \<open>s\<close> the sum of Y and the carry-in (1 when \<open>useCarry\<close> and \<open>carry\<close> are both
  set, else 0), the new Z is \<open>X - s\<close> reduced to 4 bits and the new carry is \<open>X \<ge> s\<close>.
  The sum and the difference are taken over the integers.
\<close>

theorem sub_step:
  assumes "fetch_op m = OP_SUB" and "regY m < 16"
  shows "int (unat (regZ (SimStep m)))
           = (int (unat (regX m)) - int (unat (regY m) + (if useCarry m \<and> carry m then 1 else 0))) mod 16
       \<and> carry (SimStep m)
           = (unat (regY m) + (if useCarry m \<and> carry m then 1 else 0) \<le> unat (regX m))"
proof -
  note s = SUB_step [OF assms(1)]
  have t: "unat (regY m + carry_in m) = unat (regY m) + (if useCarry m \<and> carry m then 1 else 0)"
    by (rule unat_subTmp [OF assms(2)])
  have "int (unat (regZ (SimStep m))) = (int (unat (regX m)) - int (unat (regY m + carry_in m))) mod 16"
    using s by (simp only: diff_low)
  moreover have "carry (SimStep m) = (unat (regY m + carry_in m) \<le> unat (regX m))"
    using s by (simp only: word_le_nat_alt)
  ultimately show ?thesis by (simp only: t simp_thms)
qed

text \<open>
  C2, witness: the program WTX 3, WTY 5, SUB. The SUB step gives \<open>Z = 0xE\<close> and clears
  the carry.
\<close>

theorem sub_step_witness:
  "fetch_op (main_loop_pass (main_loop_pass (machine_init (rom_image [0x53, 0x65, 0x20])))) = OP_SUB
   \<and> regX (main_loop_pass (main_loop_pass (machine_init (rom_image [0x53, 0x65, 0x20])))) = 3
   \<and> regY (main_loop_pass (main_loop_pass (machine_init (rom_image [0x53, 0x65, 0x20])))) = 5
   \<and> regZ (SimStep (main_loop_pass (main_loop_pass (machine_init (rom_image [0x53, 0x65, 0x20]))))) = 0xE
   \<and> \<not> carry (SimStep (main_loop_pass (main_loop_pass (machine_init (rom_image [0x53, 0x65, 0x20])))))"
  using sub_step [of "main_loop_pass (main_loop_pass (machine_init (rom_image [0x53, 0x65, 0x20])))"]
  by (simp add: run_defs)

text \<open>
  C3. A step whose fetched opcode is ADD sets Z to the sum of X, Y and the carry-in
  modulo 16 and the carry to bit 4 of that sum, the sum being taken over the naturals
  before any truncation. This holds for all register contents, so in particular for X
  and Y in 0..15.
\<close>

theorem add_step:
  assumes "fetch_op m = OP_ADD"
  shows "unat (regZ (SimStep m))
           = (unat (regX m) + unat (regY m) + (if useCarry m \<and> carry m then 1 else 0)) mod 16
       \<and> carry (SimStep m)
           = bit (unat (regX m) + unat (regY m) + (if useCarry m \<and> carry m then 1 else 0)) 4"
proof -
  note s = ADD_step [OF assms]
  have "unat (regZ (SimStep m)) = (unat (regX m) + unat (regY m) + unat (carry_in m)) mod 16"
    using s by (simp only: sum3_low)
  moreover have "carry (SimStep m) = bit (unat (regX m) + unat (regY m) + unat (carry_in m)) 4"
    using s by (simp only: sum3_bit4)
  ultimately show ?thesis by (simp only: unat_carry_in simp_thms)
qed

text \<open>
  C3, witness: the program WTX F, WTY 1, ADD, USC, ADD. The first ADD runs with
  \<open>useCarry\<close> clear and gives \<open>Z = 0\<close> with the carry set; the second runs with
  \<open>useCarry\<close> and the carry set and gives \<open>Z = 1\<close> with the carry set.
\<close>

theorem add_step_witness:
  "fetch_op (main_loop_pass (main_loop_pass (machine_init (rom_image [0x5F, 0x61, 0x10, 0xF0, 0x10])))) = OP_ADD
   \<and> regZ (SimStep (main_loop_pass (main_loop_pass (machine_init (rom_image [0x5F, 0x61, 0x10, 0xF0, 0x10]))))) = 0x0
   \<and> carry (SimStep (main_loop_pass (main_loop_pass (machine_init (rom_image [0x5F, 0x61, 0x10, 0xF0, 0x10])))))
   \<and> fetch_op (main_loop_pass (main_loop_pass (main_loop_pass (main_loop_pass
        (machine_init (rom_image [0x5F, 0x61, 0x10, 0xF0, 0x10])))))) = OP_ADD
   \<and> regZ (SimStep (main_loop_pass (main_loop_pass (main_loop_pass (main_loop_pass
        (machine_init (rom_image [0x5F, 0x61, 0x10, 0xF0, 0x10]))))))) = 0x1
   \<and> carry (SimStep (main_loop_pass (main_loop_pass (main_loop_pass (main_loop_pass
        (machine_init (rom_image [0x5F, 0x61, 0x10, 0xF0, 0x10])))))))"
  using add_step [of "main_loop_pass (main_loop_pass (machine_init (rom_image [0x5F, 0x61, 0x10, 0xF0, 0x10])))"]
    add_step [of "main_loop_pass (main_loop_pass (main_loop_pass (main_loop_pass
        (machine_init (rom_image [0x5F, 0x61, 0x10, 0xF0, 0x10])))))"]
  by (simp add: run_defs)

text \<open>
  C4. A PC1 step puts the immediate into the low nibble of \<open>tmpPcPtr\<close> and a PC2 step
  into the high nibble, each keeping the other nibble; a WT1 step puts it into the high
  nibble of \<open>locPtr\<close> and a WT2 step into the low nibble, each keeping the other
  nibble. The low nibble of a byte is its value modulo 16, the high nibble its value
  divided by 16.
\<close>

theorem half_register_writes:
  "(fetch_op m = OP_PC1 \<longrightarrow>
      tmpPcPtr (SimStep m) = (tmpPcPtr m AND 0xF0) OR fetch_imm m
      \<and> unat (tmpPcPtr (SimStep m)) mod 16 = unat (fetch_imm m)
      \<and> unat (tmpPcPtr (SimStep m)) div 16 = unat (tmpPcPtr m) div 16)
   \<and> (fetch_op m = OP_PC2 \<longrightarrow>
      tmpPcPtr (SimStep m) = (tmpPcPtr m AND 0x0F) OR push_bit 4 (fetch_imm m)
      \<and> unat (tmpPcPtr (SimStep m)) div 16 = unat (fetch_imm m)
      \<and> unat (tmpPcPtr (SimStep m)) mod 16 = unat (tmpPcPtr m) mod 16)
   \<and> (fetch_op m = OP_WT1 \<longrightarrow>
      unat (locPtr (SimStep m)) div 16 = unat (fetch_imm m)
      \<and> unat (locPtr (SimStep m)) mod 16 = unat (locPtr m) mod 16)
   \<and> (fetch_op m = OP_WT2 \<longrightarrow>
      unat (locPtr (SimStep m)) mod 16 = unat (fetch_imm m)
      \<and> unat (locPtr (SimStep m)) div 16 = unat (locPtr m) div 16)"
proof -
  have imm: "fetch_imm m = rom m ! unat (pcPtr m) AND 0x0F" by (simp only: fetch_imm_def)
  have pc1: "fetch_op m = OP_PC1 \<longrightarrow>
      tmpPcPtr (SimStep m) = (tmpPcPtr m AND 0xF0) OR fetch_imm m
      \<and> unat (tmpPcPtr (SimStep m)) mod 16 = unat (fetch_imm m)
      \<and> unat (tmpPcPtr (SimStep m)) div 16 = unat (tmpPcPtr m) div 16"
    using low_write [of "tmpPcPtr m" "rom m ! unat (pcPtr m)"]
    by (auto simp only: PC1_step imm)
  have pc2: "fetch_op m = OP_PC2 \<longrightarrow>
      tmpPcPtr (SimStep m) = (tmpPcPtr m AND 0x0F) OR push_bit 4 (fetch_imm m)
      \<and> unat (tmpPcPtr (SimStep m)) div 16 = unat (fetch_imm m)
      \<and> unat (tmpPcPtr (SimStep m)) mod 16 = unat (tmpPcPtr m) mod 16"
    using high_write [of "tmpPcPtr m" "rom m ! unat (pcPtr m)"]
    by (auto simp only: PC2_step imm)
  have wt1: "fetch_op m = OP_WT1 \<longrightarrow>
      unat (locPtr (SimStep m)) div 16 = unat (fetch_imm m)
      \<and> unat (locPtr (SimStep m)) mod 16 = unat (locPtr m) mod 16"
    using high_write [of "locPtr m" "rom m ! unat (pcPtr m)"]
    by (auto simp only: WT1_step imm)
  have wt2: "fetch_op m = OP_WT2 \<longrightarrow>
      unat (locPtr (SimStep m)) mod 16 = unat (fetch_imm m)
      \<and> unat (locPtr (SimStep m)) div 16 = unat (locPtr m) div 16"
    using low_write [of "locPtr m" "rom m ! unat (pcPtr m)"]
    by (auto simp only: WT2_step imm)
  from pc1 pc2 wt1 wt2 show ?thesis by blast
qed

text \<open>
  C4, witness: the program PC2 3, PC1 7, WT2 2, WT1 9 builds \<open>tmpPcPtr = 0x37\<close> and
  \<open>locPtr = 0x92\<close>, one nibble per step.
\<close>

theorem half_register_writes_witness:
  "fetch_op (machine_init (rom_image [0xB3, 0xA7, 0x42, 0x39])) = OP_PC2
   \<and> tmpPcPtr (SimStep (machine_init (rom_image [0xB3, 0xA7, 0x42, 0x39]))) = 0x30
   \<and> fetch_op (main_loop_pass (machine_init (rom_image [0xB3, 0xA7, 0x42, 0x39]))) = OP_PC1
   \<and> tmpPcPtr (SimStep (main_loop_pass (machine_init (rom_image [0xB3, 0xA7, 0x42, 0x39])))) = 0x37
   \<and> fetch_op (main_loop_pass (main_loop_pass (machine_init (rom_image [0xB3, 0xA7, 0x42, 0x39])))) = OP_WT2
   \<and> locPtr (SimStep (main_loop_pass (main_loop_pass
        (machine_init (rom_image [0xB3, 0xA7, 0x42, 0x39]))))) = 0x02
   \<and> fetch_op (main_loop_pass (main_loop_pass (main_loop_pass
        (machine_init (rom_image [0xB3, 0xA7, 0x42, 0x39]))))) = OP_WT1
   \<and> locPtr (SimStep (main_loop_pass (main_loop_pass (main_loop_pass
        (machine_init (rom_image [0xB3, 0xA7, 0x42, 0x39])))))) = 0x92"
  using half_register_writes [of "machine_init (rom_image [0xB3, 0xA7, 0x42, 0x39])"]
    half_register_writes [of "main_loop_pass (machine_init (rom_image [0xB3, 0xA7, 0x42, 0x39]))"]
    half_register_writes [of "main_loop_pass (main_loop_pass
        (machine_init (rom_image [0xB3, 0xA7, 0x42, 0x39])))"]
    half_register_writes [of "main_loop_pass (main_loop_pass (main_loop_pass
        (machine_init (rom_image [0xB3, 0xA7, 0x42, 0x39]))))"]
  by (simp add: run_defs)

text \<open>
  C5. For every 128-byte buffer, every nibble address and every value below 16, reading
  back the nibble just written gives the value; the other nibble of the byte at index
  \<open>a/2\<close> is unchanged by the write; and \<open>ReadNibble\<close> returns the low nibble of that
  byte (its value modulo 16) for an even address and the high nibble (its value divided
  by 16) for an odd one.
\<close>

theorem nibble_round_trip:
  assumes "length buf = 128" and "v < 16"
  shows "ReadNibble (WriteNibble buf a v) a = v
       \<and> (if even (unat a)
          then drop_bit 4 (WriteNibble buf a v ! (unat a div 2)) = drop_bit 4 (buf ! (unat a div 2))
          else WriteNibble buf a v ! (unat a div 2) AND 0x0F = buf ! (unat a div 2) AND 0x0F)
       \<and> unat (ReadNibble buf a) =
           (if even (unat a) then unat (buf ! (unat a div 2)) mod 16
            else unat (buf ! (unat a div 2)) div 16)"
proof -
  have i: "unat a div 2 = unat (a div 2)" by (simp add: unat_div)
  have e: "even (unat a) = (a mod 2 = 0)" by (simp only: u8_even_iff)
  have 1: "ReadNibble (WriteNibble buf a v) a = v"
    using ReadNibble_WriteNibble [OF assms(1), of a v] low_nibble_id [OF assms(2)]
    by (simp only:)
  show ?thesis
    unfolding i e
    using 1 WriteNibble_other_half [OF assms(1), of a v] unat_ReadNibble [of buf a]
    by blast
qed

text \<open>
  C5, witness: the buffer of 128 bytes \<open>0xAB\<close>, the odd address 7 and the value 5.
\<close>

theorem nibble_round_trip_witness:
  "length (replicate 128 (0xAB :: 8 word)) = 128 \<and> (0x5 :: 8 word) < 16
   \<and> ReadNibble (WriteNibble (replicate 128 0xAB) 7 0x5) 7 = 0x5
   \<and> WriteNibble (replicate 128 0xAB) 7 0x5 ! 3 = 0x5B
   \<and> ReadNibble (replicate 128 0xAB) 7 = 0xA"
  using nibble_round_trip [of "replicate 128 0xAB" "0x5" 7]
  by (simp add: WriteNibble_def ReadNibble_def)

text \<open>
  C6, counterexample: the program WT2 5, ZTR. The ZTR step runs with \<open>locPtr = 5\<close>,
  an address among the first 8 nibbles, and leaves \<open>screenDirty\<close> false.
\<close>

theorem ztr_screen_region_counterexample:
  "fetch_op (main_loop_pass (machine_init (rom_image [0x45, 0x80]))) = OP_ZTR
   \<and> locPtr (main_loop_pass (machine_init (rom_image [0x45, 0x80]))) = 5
   \<and> \<not> screenDirty (SimStep (main_loop_pass (machine_init (rom_image [0x45, 0x80]))))"
  by (simp add: run_defs)

text \<open>
  C6, as amended. A step whose fetched opcode is ZTR sets \<open>screenDirty\<close> exactly when
  \<open>locPtr\<close> is one of the nibble addresses that \<open>UpdateScreen\<close> draws, and these are the
  addresses 0..3, the first 4 nibbles (2 bytes) of \<open>ram\<close>: the flag is true for every
  \<open>locPtr\<close> in 0..3 and false for every \<open>locPtr\<close> in 4..255.
\<close>

theorem ztr_screen_region:
  assumes "fetch_op m = OP_ZTR"
  shows "screenDirty (SimStep m) = (locPtr m \<in> set screen_addrs)
       \<and> screenDirty (SimStep m) = (unat (locPtr m) \<le> 3)"
proof -
  have "screenDirty (SimStep m) = (locPtr m < 4)"
    using assms by (simp add: step_defs)
  then show ?thesis by (simp only: u8_lt4 screen_addrs_iff simp_thms)
qed

text \<open>
  C6, witness: ZTR with \<open>locPtr = 2\<close> sets the flag, ZTR with \<open>locPtr = 7\<close> does not.
\<close>

theorem ztr_screen_region_witness:
  "fetch_op (main_loop_pass (machine_init (rom_image [0x42, 0x80]))) = OP_ZTR
   \<and> locPtr (main_loop_pass (machine_init (rom_image [0x42, 0x80]))) = 2
   \<and> screenDirty (SimStep (main_loop_pass (machine_init (rom_image [0x42, 0x80]))))
   \<and> fetch_op (main_loop_pass (machine_init (rom_image [0x47, 0x80]))) = OP_ZTR
   \<and> locPtr (main_loop_pass (machine_init (rom_image [0x47, 0x80]))) = 7
   \<and> \<not> screenDirty (SimStep (main_loop_pass (machine_init (rom_image [0x47, 0x80]))))"
  using ztr_screen_region [of "main_loop_pass (machine_init (rom_image [0x42, 0x80]))"]
    ztr_screen_region [of "main_loop_pass (machine_init (rom_image [0x47, 0x80]))"]
  by (simp add: run_defs)

text \<open>
  C7. A step whose fetched opcode is ZTR sets \<open>ramDirty\<close> and assigns \<open>screenDirty\<close>
  the truth value of \<open>locPtr < 4\<close>, whatever the flags held before the step.
\<close>

theorem ztr_dirty_flags:
  assumes "fetch_op m = OP_ZTR"
  shows "ramDirty (SimStep m) \<and> screenDirty (SimStep m) = (locPtr m < 4)"
  using assms by (simp add: step_defs)

text \<open>
  C7, witness: ZTR with \<open>locPtr = 3\<close> sets \<open>screenDirty\<close>; ZTR with \<open>locPtr = 4\<close>,
  started with \<open>screenDirty\<close> already set, clears it.
\<close>

theorem ztr_dirty_flags_witness:
  "fetch_op (main_loop_pass (machine_init (rom_image [0x43, 0x80]))) = OP_ZTR
   \<and> locPtr (main_loop_pass (machine_init (rom_image [0x43, 0x80]))) = 3
   \<and> ramDirty (SimStep (main_loop_pass (machine_init (rom_image [0x43, 0x80]))))
   \<and> screenDirty (SimStep (main_loop_pass (machine_init (rom_image [0x43, 0x80]))))
   \<and> fetch_op ((main_loop_pass (machine_init (rom_image [0x44, 0x80])))\<lparr>screenDirty := True\<rparr>) = OP_ZTR
   \<and> locPtr ((main_loop_pass (machine_init (rom_image [0x44, 0x80])))\<lparr>screenDirty := True\<rparr>) = 4
   \<and> ramDirty (SimStep ((main_loop_pass (machine_init (rom_image [0x44, 0x80])))\<lparr>screenDirty := True\<rparr>))
   \<and> \<not> screenDirty (SimStep ((main_loop_pass (machine_init (rom_image [0x44, 0x80])))\<lparr>screenDirty := True\<rparr>))"
  using ztr_dirty_flags [of "main_loop_pass (machine_init (rom_image [0x43, 0x80]))"]
    ztr_dirty_flags [of "(main_loop_pass (machine_init (rom_image [0x44, 0x80])))\<lparr>screenDirty := True\<rparr>"]
  by (simp add: run_defs)

text \<open>
  C8. After a step from any machine, whatever the registers held and whatever byte was
  fetched, \<open>regX\<close>, \<open>regY\<close> and \<open>regZ\<close> are below 16.
\<close>

theorem regs_masked:
  "unat (regX (SimStep m)) < 16 \<and> unat (regY (SimStep m)) < 16 \<and> unat (regZ (SimStep m)) < 16"
  by (simp add: SimStep_def LimitRegs_def Let_def unat_low_nibble)

text \<open>
  The twelve cases of the switch that write \<open>regX\<close>, \<open>regY\<close>, \<open>regZ\<close> or \<open>locPtr\<close>, or
  write \<open>tmpPcPtr\<close> as PC1 and PC2 do, all set \<open>regsDirty\<close>. The NOP case changes
  nothing: the increment of \<open>pcPtr\<close> belongs to the step, not to the opcode.
\<close>

lemma register_writers_set_regsDirty:
  assumes "fetch_op m \<in> {OP_ADD, OP_SUB, OP_WT1, OP_WT2, OP_WTX, OP_WTY, OP_WTZ, OP_RTZ,
                          OP_PC1, OP_PC2, OP_RTX, OP_RTY}"
  shows "regsDirty (SimStep m)"
  using assms by (auto simp add: step_defs)

lemma exec_op_NOP: "exec_op OP_NOP imm m = m"
  by (simp add: exec_op_def)

text \<open>
  C9. Every step whose opcode writes a register should set \<open>regsDirty\<close>. The JMP case
  does not: in the program PC1 0, PC2 1, JMP, after two loop passes have cleared the
  flag, the JMP case itself takes \<open>tmpPcPtr\<close> from \<open>0x10\<close> to \<open>0x0F\<close> and \<open>pcPtr\<close> from
  2 to \<open>0x0F\<close>, the step ends with \<open>pcPtr = 0x10\<close>, and \<open>regsDirty\<close> is still false.
\<close>

theorem jmp_leaves_regsDirty_clear:
  "fetch_op (main_loop_pass (main_loop_pass (machine_init (rom_image [0xA0, 0xB1, 0xC0])))) = OP_JMP
   \<and> \<not> regsDirty (main_loop_pass (main_loop_pass (machine_init (rom_image [0xA0, 0xB1, 0xC0]))))
   \<and> tmpPcPtr (main_loop_pass (main_loop_pass (machine_init (rom_image [0xA0, 0xB1, 0xC0])))) = 0x10
   \<and> pcPtr (main_loop_pass (main_loop_pass (machine_init (rom_image [0xA0, 0xB1, 0xC0])))) = 2
   \<and> tmpPcPtr (exec_op OP_JMP 0
        (main_loop_pass (main_loop_pass (machine_init (rom_image [0xA0, 0xB1, 0xC0]))))) = 0x0F
   \<and> pcPtr (exec_op OP_JMP 0
        (main_loop_pass (main_loop_pass (machine_init (rom_image [0xA0, 0xB1, 0xC0]))))) = 0x0F
   \<and> tmpPcPtr (SimStep
        (main_loop_pass (main_loop_pass (machine_init (rom_image [0xA0, 0xB1, 0xC0]))))) = 0x0F
   \<and> pcPtr (SimStep
        (main_loop_pass (main_loop_pass (machine_init (rom_image [0xA0, 0xB1, 0xC0]))))) = 0x10
   \<and> \<not> regsDirty (SimStep
        (main_loop_pass (main_loop_pass (machine_init (rom_image [0xA0, 0xB1, 0xC0])))))"
  by (simp add: run_defs)

text \<open>
  With the file open, the load does what is expected of it: the read stores
  \<open>min 255 (length bs)\<close> bytes, so never more than 255; the load ends with
  \<open>ProgramEmpty\<close> and status 1 exactly when zero bytes were read, and with no other
  fault; and on success the ROM has 256 bytes, its first \<open>n\<close> bytes are the \<open>n\<close> bytes
  read and every byte from index \<open>n\<close> on is zero.
\<close>

lemma load_program_opened:
  "snd (fread rom_init (length rom_init - 1) bs) = min 255 (length bs)
   \<and> (load_program (Some bs) rom_init = Inl (Exited ProgramEmpty 1)) = (min 255 (length bs) = 0)
   \<and> (load_program (Some bs) rom_init = Inl f \<longrightarrow> f = Exited ProgramEmpty 1)
   \<and> (min 255 (length bs) \<noteq> 0) =
       (load_program (Some bs) rom_init
          = Inr (take 255 bs @ replicate (256 - min 255 (length bs)) 0))
   \<and> (load_program (Some bs) rom_init = Inr r \<longrightarrow>
        length r = 256
        \<and> take (min 255 (length bs)) r = take (min 255 (length bs)) bs
        \<and> (\<forall>i. min 255 (length bs) \<le> i \<and> i < 256 \<longrightarrow> r ! i = 0))"
proof -
  have 1: "snd (fread rom_init (length rom_init - 1) bs) = min 255 (length bs)"
    by (simp only: fread_rom_init snd_conv)
  have 2: "(load_program (Some bs) rom_init = Inl (Exited ProgramEmpty 1)) = (min 255 (length bs) = 0)"
    by (simp only: load_program_Some split: if_split) simp
  have 3: "load_program (Some bs) rom_init = Inl f \<longrightarrow> f = Exited ProgramEmpty 1"
    by (simp only: load_program_Some split: if_split) simp
  have 4: "(min 255 (length bs) \<noteq> 0) =
       (load_program (Some bs) rom_init
          = Inr (take 255 bs @ replicate (256 - min 255 (length bs)) 0))"
    by (simp only: load_program_Some split: if_split) simp
  have 5: "load_program (Some bs) rom_init = Inr r \<longrightarrow>
        length r = 256
        \<and> take (min 255 (length bs)) r = take (min 255 (length bs)) bs
        \<and> (\<forall>i. min 255 (length bs) \<le> i \<and> i < 256 \<longrightarrow> r ! i = 0)"
  proof
    assume "load_program (Some bs) rom_init = Inr r"
    then have "r = take 255 bs @ replicate (256 - min 255 (length bs)) 0"
      by (simp add: load_program_Some split: if_splits)
    then show "length r = 256
        \<and> take (min 255 (length bs)) r = take (min 255 (length bs)) bs
        \<and> (\<forall>i. min 255 (length bs) \<le> i \<and> i < 256 \<longrightarrow> r ! i = 0)"
      by (rule loaded_rom)
  qed
  from 1 2 3 4 5 show ?thesis by blast
qed

text \<open>
  C10. A load whose source cannot be opened should end with \<open>ProgramNotFound\<close> and a
  status other than 0. The code prints the message and then calls \<open>fclose\<close> on the
  \<open>NULL\<close> stream, so the load ends as \<open>ClosedNullStream\<close> and the \<open>return 1\<close> written
  after the call is not reached; the empty-file path, which closes an open stream,
  does end with \<open>ProgramEmpty\<close> and status 1.
\<close>

theorem load_not_found_closes_null_stream:
  "load_program None rom_init = Inl ClosedNullStream
   \<and> load_program None rom_init \<noteq> Inl (Exited ProgramNotFound 1)
   \<and> load_program (Some []) rom_init = Inl (Exited ProgramEmpty 1)"
  by (simp add: load_program_def fclose_def fread_def rom_init_def)

end
